theory Spec2Isabelle
  imports Complex_Main "HOL-Library.Word"
begin

unbundle bit_operations_syntax

section \<open>Files, errors and \<open>struct.unpack\<close>\<close>

text \<open>
  A dat file is a finite sequence of bytes. A handle on it is the byte sequence itself:
  every read of the module follows a \<open>seek\<close> or a previous read, so the position is passed
  explicitly. The file system maps a path to the bytes stored there. A handle is either
  there or \<open>None\<close>; a file object that was closed while a \<open>Scan\<close> still refers to it is not
  modelled.
\<close>

type_synonym byte = "8 word"
type_synonym filedata = "byte list"
type_synonym filesystem = "string \<rightharpoonup> filedata"

text \<open>
  The exceptions of the module (\<open>EOS\<close>, \<open>NotOpen\<close>, \<open>UnknownKey\<close>, \<open>UnknownDataType\<close>, the
  plain \<open>Exception\<close> of \<open>_SetAttr\<close>) and those of the Python runtime that its code can raise:
  \<open>struct.error\<close> on a short read, \<open>ZeroDivisionError\<close>, \<open>IndexError\<close>, \<open>AttributeError\<close>,
  \<open>FileNotFoundError\<close> and \<open>StopIteration\<close>.
\<close>

datatype error =
    EOS
  | NotOpen
  | UnknownKey string
  | UnknownDataType string
  | Exception string
  | IndexError string
  | StructError
  | ZeroDivisionError
  | AttributeError
  | FileNotFoundError
  | StopIteration

text \<open>\<open>str(n)\<close> for a non-negative integer: its decimal digits.\<close>

fun str_nat :: "nat \<Rightarrow> string" where
  "str_nat n =
     (if n < 10 then [''0123456789'' ! n]
      else str_nat (n div 10) @ [''0123456789'' ! (n mod 10)])"

declare str_nat.simps [simp del]

text \<open>\<open>fd.seek(pos); fd.read(n)\<close>: at most \<open>n\<close> bytes, fewer at the end of the file.\<close>

definition fd_read :: "filedata \<Rightarrow> nat \<Rightarrow> nat \<Rightarrow> byte list" where
  "fd_read f pos n = take n (drop pos f)"

text \<open>
  \<open>struct.unpack("<%dI" % n, bs)\<close>: \<open>n\<close> little-endian unsigned 32-bit integers, and
  \<open>struct.error\<close> unless \<open>bs\<close> has exactly \<open>4 * n\<close> bytes.
\<close>

fun unpack_words :: "byte list \<Rightarrow> nat list" where
  "unpack_words (b0 # b1 # b2 # b3 # bs) =
     (unat b0 + 2 ^ 8 * unat b1 + 2 ^ 16 * unat b2 + 2 ^ 24 * unat b3) # unpack_words bs"
| "unpack_words _ = []"

definition unpack_I :: "nat \<Rightarrow> byte list \<Rightarrow> error + nat list" where
  "unpack_I n bs = (if length bs = 4 * n then Inr (unpack_words bs) else Inl StructError)"

section \<open>Constants\<close>

definition HDR_INDEX_OFFSET :: nat where "HDR_INDEX_OFFSET = 33"
definition HDR_INDEX_LEN :: nat where "HDR_INDEX_LEN = 39"
definition HDR_TIMESTAMP :: nat where "HDR_TIMESTAMP = 40"

definition KEY_EOS :: nat where "KEY_EOS = 0xF"
definition KEY_EOM :: nat where "KEY_EOM = 0x8"
definition KEY_BSCAN :: nat where "KEY_BSCAN = 0xC"
definition KEY_B :: nat where "KEY_B = 0xB"
definition KEY_VOLT :: nat where "KEY_VOLT = 0x4"
definition KEY_TIME :: nat where "KEY_TIME = 0x3"
definition KEY_MASS :: nat where "KEY_MASS = 0x2"
definition KEY_DATA :: nat where "KEY_DATA = 0x1"

definition DATA_ANALOG :: nat where "DATA_ANALOG = 0x0"
definition DATA_PULSE :: nat where "DATA_PULSE = 0x1"
definition DATA_FARADAY :: nat where "DATA_FARADAY = 0x8"

lemmas KEY_defs =
  KEY_EOS_def KEY_EOM_def KEY_BSCAN_def KEY_B_def KEY_VOLT_def KEY_TIME_def KEY_MASS_def
  KEY_DATA_def

lemmas DATA_defs = DATA_ANALOG_def DATA_PULSE_def DATA_FARADAY_def

section \<open>The objects\<close>

text \<open>
  The attributes of a \<open>DatFile\<close> object. \<open>DatFile_fd\<close> is \<open>self.fd\<close>: \<open>None\<close> until
  \<open>Open\<close> and after \<open>Close\<close>. \<open>indexLen\<close>, \<open>indexOffset\<close>, \<open>DatFile_vals\<close> and \<open>offsets\<close>
  are \<open>_indexLen\<close>, \<open>_indexOffset\<close>, \<open>_vals\<close> and \<open>_offsets\<close>.
\<close>

record datfile =
  path :: string
  DatFile_fd :: "filedata option"
  timestamp :: nat
  indexLen :: nat
  indexOffset :: nat
  DatFile_vals :: "nat list"
  offsets :: "nat list"

text \<open>
  The attributes of a \<open>Scan\<close> object. The fields of the header are unsigned 32-bit
  integers, hence natural numbers. \<open>Scan_fd\<close> is the handle taken from the dat file
  (\<open>None\<close> for Python's \<open>None\<close>), \<open>Scan_offset\<close> the offset of the first mass. The
  back-reference \<open>self.dat\<close> is not read by any method and is left out.
\<close>

record scan =
  headerSize :: nat
  number :: nat
  delta :: nat
  acf :: nat
  time :: nat
  fcf :: nat
  edac :: nat
  Scan_vals :: "nat list"
  Scan_fd :: "filedata option"
  Scan_offset :: nat

section \<open>Class \<open>Mass\<close>\<close>

text \<open>
  The attributes of a \<open>Mass\<close> object. \<open>None\<close> is Python's \<open>None\<close>; \<open>Mass_size\<close> is \<open>None\<close>
  as long as the attribute \<open>size\<close> does not exist. \<open>measurements\<close> is the
  \<open>defaultdict(list)\<close>: a key that was never written reads as the empty list. Python's
  floats (\<open>magnetMass\<close>, \<open>acceleratingVoltage\<close>) are idealised as real numbers: the
  rounding of the floating-point operations is not modelled. The measurements are
  Python integers, which may be negative. The back-references \<open>self.fd\<close> and
  \<open>self.scan\<close> are left out.
\<close>

record mass =
  Mass_offset :: nat
  magnetMass :: "real option"
  acceleratingVoltage :: "real option"
  channelTime :: "nat option"
  duration :: "nat option"
  measurements :: "string \<rightharpoonup> int list"
  Mass_size :: "nat option"

definition dd_get :: "(string \<rightharpoonup> int list) \<Rightarrow> string \<Rightarrow> int list" where
  "dd_get d k = (case d k of None \<Rightarrow> [] | Some xs \<Rightarrow> xs)"

definition dd_append :: "(string \<rightharpoonup> int list) \<Rightarrow> string \<Rightarrow> int \<Rightarrow> (string \<rightharpoonup> int list)" where
  "dd_append d k v = d(k \<mapsto> dd_get d k @ [v])"

text \<open>\<open>getattr\<close> and \<open>setattr\<close>, for the two attribute names \<open>_SetAttr\<close> is called with.\<close>

definition getattr :: "mass \<Rightarrow> string \<Rightarrow> nat option" where
  "getattr m name =
     (if name = ''channelTime'' then channelTime m
      else if name = ''duration'' then duration m
      else None)"

definition setattr :: "mass \<Rightarrow> string \<Rightarrow> nat \<Rightarrow> mass" where
  "setattr m name v =
     (if name = ''channelTime'' then m\<lparr>channelTime := Some v\<rparr>
      else if name = ''duration'' then m\<lparr>duration := Some v\<rparr>
      else m)"

definition SetAttr :: "mass \<Rightarrow> string \<Rightarrow> nat \<Rightarrow> error + mass" where
  "SetAttr m name v =
     (if getattr m name \<noteq> None then Inl (Exception (name @ '' is already set''))
      else Inr (setattr m name v))"

text \<open>
  The body of the \<open>while True\<close> loop of \<open>Mass.__init__\<close> for the word \<open>tmp\<close> just read;
  \<open>tell\<close> is \<open>fd.tell()\<close> after the read. The result is the exception raised, or the
  updated mass with \<open>True\<close> for \<open>break\<close> and \<open>False\<close> for the next round of the loop.
  The word \<open>tmp\<close> and the values cut out of it are unsigned, hence natural numbers; a
  measurement is an integer, as it may be negated. The loop starts at \<open>self.offset\<close> and
  only moves forward, so \<open>fd.tell() - self.offset\<close> is never negative. Dividing by the
  payload 0 raises \<open>ZeroDivisionError\<close>.
\<close>

definition Mass_word :: "scan \<Rightarrow> nat \<Rightarrow> mass \<Rightarrow> nat \<Rightarrow> error + (bool \<times> mass)" where
  "Mass_word scan tell m tmp =
     (let key = drop_bit 28 (tmp AND 0xF0000000);
          v = tmp AND 0x0FFFFFFF
      in
      if key = KEY_EOS then Inl EOS
      else if key = KEY_EOM then
        (case SetAttr m ''duration'' v of
           Inl e \<Rightarrow> Inl e
         | Inr m' \<Rightarrow> Inr (True, m'\<lparr>Mass_size := Some (tell - Mass_offset m')\<rparr>))
      else if key = KEY_BSCAN then Inr (False, m)
      else if key = KEY_B then Inr (False, m)
      else if key = KEY_VOLT then
        (if v = 0 then Inl ZeroDivisionError
         else Inr (False, m\<lparr>acceleratingVoltage :=
                 Some (real (edac scan) * 1000 / real v / 2 ^ 18)\<rparr>))
      else if key = KEY_TIME then
        (case SetAttr m ''channelTime'' v of
           Inl e \<Rightarrow> Inl e
         | Inr m' \<Rightarrow> Inr (False, m'))
      else if key = KEY_MASS then
        Inr (False, m\<lparr>magnetMass := Some (real v * 1 / 2 ^ 18)\<rparr>)
      else if key = KEY_DATA then
        (let flag = drop_bit 24 (v AND 0x0F000000);
             dataType = drop_bit 20 (v AND 0x00F00000);
             exp = drop_bit 16 (v AND 0x000F0000);
             v = v AND 0x0000FFFF
         in
         if dataType = DATA_ANALOG then
           (let v = int (push_bit exp v);
                v = (if flag \<noteq> 0 then - v else v)
            in Inr (False, m\<lparr>measurements := dd_append (measurements m) ''analog'' v\<rparr>))
         else if dataType = DATA_PULSE then
           (let v = int (push_bit exp v);
                v = (if flag \<noteq> 0 then - v else v)
            in Inr (False, m\<lparr>measurements := dd_append (measurements m) ''pulse'' v\<rparr>))
         else if dataType = DATA_FARADAY then
           (let v = int (push_bit exp v);
                v = (if flag \<noteq> 0 then - v else v)
            in Inr (False, m\<lparr>measurements := dd_append (measurements m) ''faraday'' v\<rparr>))
         else Inl (UnknownDataType (str_nat dataType)))
      else Inl (UnknownKey (str_nat key)))"

text \<open>
  The loop: read four bytes at \<open>pos\<close>, unpack them (a short read raises \<open>struct.error\<close>),
  run the body, and go on at \<open>pos + 4\<close> unless the body raised or broke out.
\<close>

lemma unpack_I_one_length:
  "unpack_I 1 (fd_read f pos 4) = Inr ws \<Longrightarrow> pos + 4 \<le> length f"
  by (auto simp: unpack_I_def fd_read_def split: if_splits)

function Mass_loop :: "filedata \<Rightarrow> scan \<Rightarrow> nat \<Rightarrow> mass \<Rightarrow> error + mass" where
  "Mass_loop f scan pos m =
     (case unpack_I 1 (fd_read f pos 4) of
        Inl e \<Rightarrow> Inl e
      | Inr ws \<Rightarrow>
          (case Mass_word scan (pos + 4) m (ws ! 0) of
             Inl e \<Rightarrow> Inl e
           | Inr (brk, m') \<Rightarrow> if brk then Inr m' else Mass_loop f scan (pos + 4) m'))"
  by pat_completeness auto
termination
  by (relation "measure (\<lambda>(f, scan, pos, m). length f - pos)")
     (auto simp: unpack_I_def fd_read_def split: if_splits)

declare Mass_loop.simps [simp del]

text \<open>
  \<open>Mass.__init__(self, scan, fd, offset)\<close>: the check of the handle, the attributes as
  they are before the loop (\<open>Mass_new\<close>), and the loop from \<open>offset\<close>.
\<close>

definition Mass_new :: "nat \<Rightarrow> mass" where
  "Mass_new offset =
     \<lparr>Mass_offset = offset, magnetMass = None, acceleratingVoltage = None,
      channelTime = None, duration = None, measurements = Map.empty,
      Mass_size = None\<rparr>"

definition Mass_init :: "scan \<Rightarrow> filedata option \<Rightarrow> nat \<Rightarrow> error + mass" where
  "Mass_init scan fd offset =
     (case fd of
        None \<Rightarrow> Inl NotOpen
      | Some f \<Rightarrow> Mass_loop f scan offset (Mass_new offset))"

section \<open>Class \<open>Scan\<close>\<close>

text \<open>
  \<open>Scan.__init__(self, dat, offset)\<close>. \<open>dat.fd.seek\<close> on a dat file that is not open is an
  attribute access on \<open>None\<close>.
\<close>

definition Scan_init :: "datfile \<Rightarrow> nat \<Rightarrow> error + scan" where
  "Scan_init dat offset =
     (case DatFile_fd dat of
        None \<Rightarrow> Inl AttributeError
      | Some f \<Rightarrow>
          (let hs = 47 * 4 in
           case unpack_I (hs div 4) (fd_read f offset hs) of
             Inl e \<Rightarrow> Inl e
           | Inr vals \<Rightarrow>
               Inr \<lparr>headerSize = hs, number = vals ! 9, delta = vals ! 7, acf = vals ! 12,
                    time = vals ! 19, fcf = vals ! 35, edac = vals ! 31, Scan_vals = vals,
                    Scan_fd = DatFile_fd dat, Scan_offset = offset + hs\<rparr>))"

text \<open>\<open>Scan.GetMass(self, offset)\<close>: \<open>None\<close> when the decoder raised \<open>EOS\<close>.\<close>

definition GetMass :: "scan \<Rightarrow> nat \<Rightarrow> error + mass option" where
  "GetMass scan offset =
     (case Scan_fd scan of
        None \<Rightarrow> Inl NotOpen
      | Some f \<Rightarrow>
          (case Mass_init scan (Scan_fd scan) offset of
             Inl e \<Rightarrow> if e = EOS then Inr None else Inl e
           | Inr m \<Rightarrow> Inr (Some m)))"

section \<open>Class \<open>ScanIterator\<close>\<close>

record scaniterator =
  it_scan :: scan
  it_offset :: nat



text \<open>
  \<open>ScanIterator.__next__(self)\<close>: the mass and the iterator after the call. Reading
  \<open>mass.size\<close> of a mass that has no such attribute would be an \<open>AttributeError\<close>.
\<close>

definition ScanIterator_next :: "scaniterator \<Rightarrow> error + (mass \<times> scaniterator)" where
  "ScanIterator_next it =
     (case GetMass (it_scan it) (it_offset it) of
        Inl e \<Rightarrow> Inl e
      | Inr None \<Rightarrow> Inl StopIteration
      | Inr (Some m) \<Rightarrow>
          (case Mass_size m of
             None \<Rightarrow> Inl AttributeError
           | Some s \<Rightarrow> Inr (m, it\<lparr>it_offset := it_offset it + s\<rparr>)))"

text \<open>
  A \<open>for mass in scan\<close> loop calls \<open>__next__\<close> until it raises. Every mass moves the
  iterator forward by at least one word inside the file, so the loop ends; the three
  lemmas below establish that.
\<close>

lemma SetAttr_offset: "SetAttr m name v = Inr m' \<Longrightarrow> Mass_offset m' = Mass_offset m"
  by (auto simp: SetAttr_def setattr_def split: if_splits)

lemma Mass_word_offset:
  "Mass_word scan tell m tmp = Inr (brk, m') \<Longrightarrow> Mass_offset m' = Mass_offset m"
  unfolding Mass_word_def Let_def
  by (auto split: if_splits sum.splits dest: SetAttr_offset)

lemma Mass_word_break:
  "Mass_word scan tell m tmp = Inr (True, m') \<Longrightarrow> Mass_size m' = Some (tell - Mass_offset m)"
  unfolding Mass_word_def Let_def
  by (auto split: if_splits sum.splits dest: SetAttr_offset)

lemma Mass_loop_size:
  "Mass_loop f scan pos m = Inr m' \<Longrightarrow> Mass_offset m \<le> pos \<Longrightarrow>
     Mass_offset m' = Mass_offset m \<and>
     (\<exists>s. Mass_size m' = Some s \<and> pos < Mass_offset m + s \<and> Mass_offset m + s \<le> length f)"
proof (induction f scan pos m rule: Mass_loop.induct)
  case (1 f scan pos m)
  from "1.prems"(1) obtain ws where ws: "unpack_I 1 (fd_read f pos 4) = Inr ws"
    by (subst (asm) Mass_loop.simps) (auto split: sum.splits)
  then have len: "pos + 4 \<le> length f" by (rule unpack_I_one_length)
  from "1.prems"(1) ws obtain brk m1 where
    w: "Mass_word scan (pos + 4) m (ws ! 0) = Inr (brk, m1)"
    by (subst (asm) Mass_loop.simps) (auto split: sum.splits)
  have off1: "Mass_offset m1 = Mass_offset m" using w by (rule Mass_word_offset)
  show ?case
  proof (cases brk)
    case True
    with "1.prems"(1) ws w have "m' = m1"
      by (subst (asm) Mass_loop.simps) simp
    moreover have "Mass_size m1 = Some (pos + 4 - Mass_offset m)"
      using w True by (simp add: Mass_word_break)
    ultimately show ?thesis using off1 len "1.prems"(2) by auto
  next
    case False
    with "1.prems"(1) ws w have "Mass_loop f scan (pos + 4) m1 = Inr m'"
      by (subst (asm) Mass_loop.simps) simp
    moreover have "Mass_offset m1 \<le> pos + 4" using off1 "1.prems"(2) by simp
    ultimately have "Mass_offset m' = Mass_offset m1 \<and>
      (\<exists>s. Mass_size m' = Some s \<and> pos + 4 < Mass_offset m1 + s \<and> Mass_offset m1 + s \<le> length f)"
      using "1.IH" [OF ws _ _ False, of "(brk, m1)" m1] w False by simp
    then show ?thesis using off1 by auto
  qed
qed

lemma ScanIterator_next_advances:
  assumes "ScanIterator_next it = Inr (m, it')"
  shows "it_scan it' = it_scan it \<and>
     (\<exists>f. Scan_fd (it_scan it) = Some f \<and> it_offset it < it_offset it' \<and> it_offset it' \<le> length f)"
proof -
  from assms obtain f where f: "Scan_fd (it_scan it) = Some f"
    by (auto simp: ScanIterator_next_def GetMass_def split: option.splits)
  from assms f have loop: "Mass_init (it_scan it) (Some f) (it_offset it) = Inr m"
    by (auto simp: ScanIterator_next_def GetMass_def split: option.splits sum.splits if_splits)
  from assms obtain s where s: "Mass_size m = Some s" "it' = it\<lparr>it_offset := it_offset it + s\<rparr>"
    using f loop by (auto simp: ScanIterator_next_def GetMass_def split: option.splits)
  from loop have "Mass_offset m = it_offset it \<and>
     (\<exists>s. Mass_size m = Some s \<and> it_offset it < it_offset it + s \<and> it_offset it + s \<le> length f)"
    using Mass_loop_size [of f "it_scan it" "it_offset it" "Mass_new (it_offset it)" m]
    by (simp add: Mass_init_def Mass_new_def)
  with s f show ?thesis by auto
qed

text \<open>
  The masses the loop is handed, in order, and how it ends: \<open>None\<close> for \<open>StopIteration\<close>
  (the loop is over), \<open>Some e\<close> for the exception \<open>e\<close> that leaves it.
\<close>

function masses_from :: "scaniterator \<Rightarrow> mass list \<times> error option" where
  "masses_from it =
     (case ScanIterator_next it of
        Inl e \<Rightarrow> ([], if e = StopIteration then None else Some e)
      | Inr (m, it') \<Rightarrow> (case masses_from it' of (ms, r) \<Rightarrow> (m # ms, r)))"
  by pat_completeness auto
termination
proof (relation "measure (\<lambda>it. case Scan_fd (it_scan it) of
                     None \<Rightarrow> 0 | Some f \<Rightarrow> length f - it_offset it)")
  show "wf (measure (\<lambda>it. case Scan_fd (it_scan it) of
                     None \<Rightarrow> 0 | Some f \<Rightarrow> length f - it_offset it))" by simp
next
  fix it x2 x y
  assume "ScanIterator_next it = Inr x2" "(x, y) = x2"
  then have "ScanIterator_next it = Inr (x, y)" by simp
  from ScanIterator_next_advances [OF this]
  show "(y, it) \<in> measure (\<lambda>it. case Scan_fd (it_scan it) of
                     None \<Rightarrow> 0 | Some f \<Rightarrow> length f - it_offset it)"
    by auto
qed

declare masses_from.simps [simp del]


section \<open>Class \<open>DatFile\<close>\<close>

text \<open>\<open>DatFile.__init__(self, path)\<close>, on the file system \<open>fs\<close>.\<close>

definition DatFile_init :: "filesystem \<Rightarrow> string \<Rightarrow> error + datfile" where
  "DatFile_init fs p =
     (case fs p of
        None \<Rightarrow> Inl FileNotFoundError
      | Some f \<Rightarrow>
          (let fields = 85 in
           case unpack_I fields (fd_read f 0x10 (fields * 4)) of
             Inl e \<Rightarrow> Inl e
           | Inr vals \<Rightarrow>
               (let ts = vals ! HDR_TIMESTAMP;
                    len = vals ! HDR_INDEX_LEN;
                    off = vals ! HDR_INDEX_OFFSET;
                    bytes = len * 4
                in
                case unpack_I len (fd_read f (off + 4) bytes) of
                  Inl e \<Rightarrow> Inl e
                | Inr offs \<Rightarrow>
                    Inr \<lparr>path = p, DatFile_fd = None, timestamp = ts, indexLen = len,
                         indexOffset = off, DatFile_vals = vals, offsets = offs\<rparr>)))"

definition Open :: "filesystem \<Rightarrow> datfile \<Rightarrow> error + datfile" where
  "Open fs dat =
     (case fs (path dat) of
        None \<Rightarrow> Inl FileNotFoundError
      | Some f \<Rightarrow> Inr (dat\<lparr>DatFile_fd := Some f\<rparr>))"

definition Close :: "datfile \<Rightarrow> error + datfile" where
  "Close dat =
     (case DatFile_fd dat of
        None \<Rightarrow> Inl AttributeError
      | Some f \<Rightarrow> Inr (dat\<lparr>DatFile_fd := None\<rparr>))"

definition NumScans :: "datfile \<Rightarrow> nat" where
  "NumScans dat = length (offsets dat)"

text \<open>
  Indexing a tuple with a Python integer: a negative index counts from the end, and an
  index outside the tuple raises \<open>IndexError\<close>.
\<close>

definition py_index :: "nat list \<Rightarrow> int \<Rightarrow> error + nat" where
  "py_index xs i =
     (if i < - int (length xs) \<or> int (length xs) \<le> i then
        Inl (IndexError ''tuple index out of range'')
      else if i < 0 then Inr (xs ! nat (int (length xs) + i))
      else Inr (xs ! nat i))"

text \<open>
  \<open>DatFile.GetScan(self, index)\<close>. The message is formatted only when
  \<open>index >= len(self._offsets)\<close>, so both numbers are non-negative there.
\<close>

definition GetScan :: "datfile \<Rightarrow> int \<Rightarrow> error + scan" where
  "GetScan dat index =
     (case DatFile_fd dat of
        None \<Rightarrow> Inl NotOpen
      | Some f \<Rightarrow>
          if index \<ge> int (length (offsets dat)) then
            Inl (IndexError (''Scan index out of range: '' @ str_nat (nat index) @ '' >= ''
                             @ str_nat (length (offsets dat))))
          else
            (case py_index (offsets dat) index of
               Inl e \<Rightarrow> Inl e
             | Inr off \<Rightarrow> Scan_init dat off))"

section \<open>Class \<open>DatFileIterator\<close>\<close>




section \<open>The notions of the specification\<close>

text \<open>
  The word codec of the specification: the tag of a 32-bit word is \<open>word >> 28\<close>, its
  payload the low 28 bits; \<open>bits lo hi\<close> is the bit field from bit \<open>lo\<close> to bit \<open>hi\<close>, both
  included.
\<close>

definition word_tag :: "nat \<Rightarrow> nat" where
  "word_tag w = w div 2 ^ 28"

definition word_payload :: "nat \<Rightarrow> nat" where
  "word_payload w = w mod 2 ^ 28"

definition bits :: "nat \<Rightarrow> nat \<Rightarrow> nat \<Rightarrow> nat" where
  "bits lo hi x = (x div 2 ^ lo) mod 2 ^ (hi + 1 - lo)"

text \<open>The word the decoder reads at byte \<open>pos\<close> of the file.\<close>

definition read_word :: "filedata \<Rightarrow> nat \<Rightarrow> error + nat list" where
  "read_word f pos = unpack_I 1 (fd_read f pos 4)"

text \<open>
  The value and the category of a \<open>DATA\<close> payload as the specification words them:
  the magnitude shifted left by the exponent, negated when the flag is not zero; the
  category by the data type, \<open>None\<close> for an unknown one.
\<close>

definition spec_value :: "nat \<Rightarrow> int" where
  "spec_value p =
     (let flag = bits 24 27 p; exponent = bits 16 19 p; rawMagnitude = bits 0 15 p;
          shifted = int rawMagnitude * 2 ^ exponent
      in if flag \<noteq> 0 then - shifted else shifted)"

definition spec_category :: "nat \<Rightarrow> string option" where
  "spec_category p =
     (let dataType = bits 20 23 p
      in if dataType = 0 then Some ''analog''
         else if dataType = 1 then Some ''pulse''
         else if dataType = 8 then Some ''faraday''
         else None)"

text \<open>
  \<open>words_at f pos ws\<close>: the words the decoder reads at \<open>pos\<close>, \<open>pos + 4\<close>, ... are those
  of \<open>ws\<close>. \<open>Mass_words\<close> is the body of the decoder's loop run over a list of words, one
  after the other, up to the first that raises or breaks; \<open>pos\<close> is the offset of the
  first word.
\<close>

fun words_at :: "filedata \<Rightarrow> nat \<Rightarrow> nat list \<Rightarrow> bool" where
  "words_at f pos [] = True"
| "words_at f pos (w # ws) = (read_word f pos = Inr [w] \<and> words_at f (pos + 4) ws)"

fun Mass_words :: "scan \<Rightarrow> nat \<Rightarrow> mass \<Rightarrow> nat list \<Rightarrow> error + (bool \<times> mass)" where
  "Mass_words scan pos m [] = Inr (False, m)"
| "Mass_words scan pos m (w # ws) =
     (case Mass_word scan (pos + 4) m w of
        Inl e \<Rightarrow> Inl e
      | Inr (brk, m') \<Rightarrow> if brk then Inr (True, m') else Mass_words scan (pos + 4) m' ws)"

text \<open>
  A scan with the given handle and \<open>EDAC\<close> value, all other fields zero, for the
  examples.
\<close>

definition example_scan :: "filedata \<Rightarrow> nat \<Rightarrow> scan" where
  "example_scan f e =
     \<lparr>headerSize = 188, number = 0, delta = 0, acf = 0, time = 0, fcf = 0, edac = e,
      Scan_vals = [], Scan_fd = Some f, Scan_offset = 0\<rparr>"

text \<open>
  One mass record: the words \<open>0x20040000\<close> (\<open>MASS\<close>, payload \<open>0x40000\<close>), \<open>0x1000000A\<close>
  (\<open>DATA\<close>, analog, value 10) and \<open>0x80000064\<close> (\<open>EOM\<close>, payload 100), followed by
  \<open>0xF0000000\<close> (\<open>EOS\<close>).
\<close>

definition example_record :: filedata where
  "example_record =
     [0x00, 0x00, 0x04, 0x20,  0x0A, 0x00, 0x00, 0x10,  0x64, 0x00, 0x00, 0x80,
      0x00, 0x00, 0x00, 0xF0]"


definition example_times :: filedata where
  "example_times =
     [0x05, 0x00, 0x00, 0x30,  0x0A, 0x00, 0x00, 0x10,  0x07, 0x00, 0x00, 0x30]"

definition example_volt0 :: filedata where
  "example_volt0 =
     [0x05, 0x00, 0x00, 0x30,  0x00, 0x00, 0x00, 0x40,  0x64, 0x00, 0x00, 0x80]"

text \<open>
  The errors the specification names: its taxonomy (\<open>NotOpen\<close>, \<open>UnknownKey\<close>,
  \<open>UnknownDataType\<close>, \<open>MalformedAttribute\<close>, which is the plain \<open>Exception\<close> of
  \<open>_SetAttr\<close>, \<open>IndexOutOfRange\<close>, and \<open>Truncated/IO\<close>, which is the short read) and the
  end-of-scan sentinel.
\<close>

fun spec_error :: "error \<Rightarrow> bool" where
  "spec_error NotOpen = True"
| "spec_error (UnknownKey code) = True"
| "spec_error (UnknownDataType code) = True"
| "spec_error (Exception msg) = True"
| "spec_error (IndexError msg) = True"
| "spec_error StructError = True"
| "spec_error EOS = True"
| "spec_error e = False"

text \<open>
  The little-endian unsigned 32-bit integer in the four bytes of the file from byte \<open>p\<close>.
\<close>

definition le32_at :: "filedata \<Rightarrow> nat \<Rightarrow> nat" where
  "le32_at f p =
     unat (f ! p) + 2 ^ 8 * unat (f ! (p + 1)) + 2 ^ 16 * unat (f ! (p + 2))
     + 2 ^ 24 * unat (f ! (p + 3))"

text \<open>
  A whole dat file of 564 bytes. Field 33 of its header is 356, the offset of the index;
  field 39 is 1, its length; field 40 is 42, the timestamp. The one entry of the offset
  table, at byte 360, is 364: there stands a scan header of 188 bytes whose field 9 is
  7, and after it, at byte 552, the stream of \<open>example_record\<close>: one \<open>DATA\<close> word (analog,
  value 10), an \<open>EOM\<close> word with payload 100 and an \<open>EOS\<close> word. \<open>example_dat\<close> is the object
  \<open>DatFile('run.dat')\<close> builds from it, \<open>example_open\<close> the same object after \<open>Open()\<close>.
\<close>

definition example_file :: filedata where
  "example_file =
     replicate 148 0 @ [0x64, 0x01, 0, 0] @ replicate 20 0 @ [1, 0, 0, 0] @ [42, 0, 0, 0]
     @ replicate 180 0 @ [0x6C, 0x01, 0, 0]
     @ replicate 36 0 @ [7, 0, 0, 0] @ replicate 148 0
     @ [0x0A, 0, 0, 0x10,  0x64, 0, 0, 0x80,  0, 0, 0, 0xF0]"

definition example_fs :: filesystem where
  "example_fs = [''run.dat'' \<mapsto> example_file]"

definition example_dat :: datfile where
  "example_dat =
     \<lparr>path = ''run.dat'', DatFile_fd = None, timestamp = 42, indexLen = 1, indexOffset = 356,
      DatFile_vals = map (\<lambda>i. le32_at example_file (16 + 4 * i)) [0..<85],
      offsets = [364]\<rparr>"

definition example_open :: datfile where
  "example_open = example_dat\<lparr>DatFile_fd := Some example_file\<rparr>"




section \<open>Bit fields\<close>

lemma field_nat: "drop_bit n ((x::nat) AND push_bit n (mask k)) = (x div 2 ^ n) mod 2 ^ k"
proof -
  have "drop_bit n (x AND push_bit n (mask k)) = take_bit k (drop_bit n x)"
    by (rule bit_eqI) (auto simp: bit_simps)
  then show ?thesis by (simp add: take_bit_eq_mod drop_bit_eq_div)
qed

lemma key_eq: "drop_bit 28 ((tmp::nat) AND 0xF0000000) = (tmp div 2 ^ 28) mod 2 ^ 4"
  using field_nat [of 28 tmp 4] by (simp add: push_bit_eq_mult mask_eq_exp_minus_1)

lemma key_eq_tag: "tmp < 2 ^ 32 \<Longrightarrow> drop_bit 28 ((tmp::nat) AND 0xF0000000) = word_tag tmp"
proof -
  assume "tmp < 2 ^ 32"
  then have "tmp div 2 ^ 28 < 2 ^ 4" by (simp add: less_mult_imp_div_less)
  then show ?thesis using key_eq [of tmp] by (simp add: word_tag_def)
qed

lemma payload_eq: "(tmp::nat) AND 0x0FFFFFFF = word_payload tmp"
  using take_bit_eq_mask [of 28 tmp]
  by (simp add: take_bit_eq_mod mask_eq_exp_minus_1 word_payload_def)





lemma unpack_words_bound: "w \<in> set (unpack_words bs) \<Longrightarrow> w < 2 ^ 32"
proof (induction bs arbitrary: w rule: unpack_words.induct)
  case (1 b0 b1 b2 b3 bs)
  have "unat b0 < 2 ^ 8" "unat b1 < 2 ^ 8" "unat b2 < 2 ^ 8" "unat b3 < 2 ^ 8"
    using unsigned_less [of b0] unsigned_less [of b1] unsigned_less [of b2] unsigned_less [of b3]
    by simp_all
  then have "unat b0 + 2 ^ 8 * unat b1 + 2 ^ 16 * unat b2 + 2 ^ 24 * unat b3 < 2 ^ 32"
    by simp
  with 1 show ?case by auto
qed simp_all

lemma read_word_bound: "read_word f pos = Inr [w] \<Longrightarrow> w < 2 ^ 32"
  using unpack_words_bound [of w "fd_read f pos 4"]
  by (auto simp: read_word_def unpack_I_def split: if_splits)

lemma Mass_loop_step:
  "read_word f pos = Inr [tmp] \<Longrightarrow>
   Mass_loop f scan pos m =
     (case Mass_word scan (pos + 4) m tmp of
        Inl e \<Rightarrow> Inl e
      | Inr (brk, m') \<Rightarrow> if brk then Inr m' else Mass_loop f scan (pos + 4) m')"
  by (subst Mass_loop.simps) (simp add: read_word_def)

text \<open>The definitions to unfold when a concrete file is evaluated.\<close>

lemmas word_eval =
  read_word_def unpack_I_def fd_read_def word_tag_def word_payload_def bits_def
  spec_category_def spec_value_def dd_get_def dd_append_def

lemmas Mass_eval =
  Mass_word_def KEY_defs DATA_defs SetAttr_def getattr_def setattr_def Mass_new_def

section \<open>The \<open>DATA\<close> word\<close>




section \<open>The decoder on a sequence of words\<close>

lemma words_at_append:
  "words_at f pos (xs @ ys) = (words_at f pos xs \<and> words_at f (pos + 4 * length xs) ys)"
  by (induction xs arbitrary: pos) (auto simp: algebra_simps)

lemma words_at_bound: "words_at f pos ws \<Longrightarrow> w \<in> set ws \<Longrightarrow> w < 2 ^ 32"
  by (induction ws arbitrary: pos) (auto dest: read_word_bound)

lemma Mass_loop_words:
  "words_at f pos ws \<Longrightarrow>
   Mass_loop f scan pos m =
     (case Mass_words scan pos m ws of
        Inl e \<Rightarrow> Inl e
      | Inr (brk, m') \<Rightarrow>
          if brk then Inr m' else Mass_loop f scan (pos + 4 * length ws) m')"
proof (induction ws arbitrary: pos m)
  case Nil
  then show ?case by simp
next
  case (Cons w ws)
  from Cons.prems have r: "read_word f pos = Inr [w]" and rest: "words_at f (pos + 4) ws"
    by simp_all
  show ?case
    using Mass_loop_step [OF r, of scan m] Cons.IH [OF rest]
    by (auto split: sum.splits simp: algebra_simps)
qed

subsection \<open>The body of the loop, tag by tag\<close>


lemma Mass_word_EOM:
  "tmp < 2 ^ 32 \<Longrightarrow> word_tag tmp = 8 \<Longrightarrow>
   Mass_word scan tell m tmp =
     (if duration m \<noteq> None then Inl (Exception ''duration is already set'')
      else Inr (True, m\<lparr>duration := Some (word_payload tmp),
                         Mass_size := Some (tell - Mass_offset m)\<rparr>))"
  unfolding Mass_word_def Let_def
  by (simp only: key_eq_tag KEY_defs payload_eq)
     (simp add: SetAttr_def getattr_def setattr_def)



lemma Mass_word_VOLT:
  "tmp < 2 ^ 32 \<Longrightarrow> word_tag tmp = 4 \<Longrightarrow>
   Mass_word scan tell m tmp =
     (if word_payload tmp = 0 then Inl ZeroDivisionError
      else Inr (False, m\<lparr>acceleratingVoltage :=
              Some (real (edac scan) * 1000 / real (word_payload tmp) / 2 ^ 18)\<rparr>))"
  unfolding Mass_word_def Let_def
  by (simp only: key_eq_tag KEY_defs payload_eq) simp

lemma Mass_word_TIME:
  "tmp < 2 ^ 32 \<Longrightarrow> word_tag tmp = 3 \<Longrightarrow>
   Mass_word scan tell m tmp =
     (if channelTime m \<noteq> None then Inl (Exception ''channelTime is already set'')
      else Inr (False, m\<lparr>channelTime := Some (word_payload tmp)\<rparr>))"
  unfolding Mass_word_def Let_def
  by (simp only: key_eq_tag KEY_defs payload_eq)
     (simp add: SetAttr_def getattr_def setattr_def)


lemma SetAttr_channelTime_keeps:
  "SetAttr m ''channelTime'' v = Inr m' \<Longrightarrow>
   duration m' = duration m \<and> Mass_size m' = Mass_size m \<and> channelTime m' \<noteq> None"
  by (auto simp: SetAttr_def setattr_def split: if_splits)

lemma Mass_word_continue:
  "Mass_word scan tell m tmp = Inr (False, m') \<Longrightarrow>
   duration m' = duration m \<and> Mass_size m' = Mass_size m
   \<and> (channelTime m \<noteq> None \<longrightarrow> channelTime m' \<noteq> None)"
  unfolding Mass_word_def Let_def
  by (auto split: if_splits sum.splits dest: SetAttr_channelTime_keeps)

lemma Mass_words_continue:
  "Mass_words scan pos m ws = Inr (False, m') \<Longrightarrow>
   duration m' = duration m \<and> Mass_offset m' = Mass_offset m \<and> Mass_size m' = Mass_size m
   \<and> (channelTime m \<noteq> None \<longrightarrow> channelTime m' \<noteq> None)"
proof (induction ws arbitrary: pos m)
  case Nil
  then show ?case by simp
next
  case (Cons w ws)
  from Cons.prems obtain m1 where
    w: "Mass_word scan (pos + 4) m w = Inr (False, m1)" and
    rest: "Mass_words scan (pos + 4) m1 ws = Inr (False, m')"
    by (auto split: sum.splits if_splits)
  from Mass_word_continue [OF w] Mass_word_offset [OF w] Cons.IH [OF rest]
  show ?case by simp
qed

section \<open>The end of a mass\<close>

lemma Mass_loop_at_EOM:
  assumes "words_at f pos (ws @ [eom])"
      and "Mass_words scan pos m ws = Inr (False, m')"
      and "word_tag eom = 8"
  shows "Mass_loop f scan pos m =
     (if duration m \<noteq> None then Inl (Exception ''duration is already set'')
      else Inr (m'\<lparr>duration := Some (word_payload eom),
                    Mass_size := Some (pos + 4 * length ws + 4 - Mass_offset m)\<rparr>))"
proof -
  from assms(1) have ws: "words_at f pos ws"
    and r: "read_word f (pos + 4 * length ws) = Inr [eom]"
    by (simp_all add: words_at_append)
  have b: "eom < 2 ^ 32" using r by (rule read_word_bound)
  have inv: "duration m' = duration m" "Mass_offset m' = Mass_offset m"
    using Mass_words_continue [OF assms(2)] by simp_all
  have "Mass_loop f scan pos m = Mass_loop f scan (pos + 4 * length ws) m'"
    using Mass_loop_words [OF ws, of scan m] assms(2) by simp
  also have "\<dots> = (if duration m \<noteq> None then Inl (Exception ''duration is already set'')
      else Inr (m'\<lparr>duration := Some (word_payload eom),
                    Mass_size := Some (pos + 4 * length ws + 4 - Mass_offset m)\<rparr>))"
    using Mass_loop_step [OF r, of scan m'] Mass_word_EOM [OF b assms(3), of scan _ m'] inv
    by simp
  finally show ?thesis .
qed

lemma ScanIterator_next_EOM:
  assumes "Scan_fd (it_scan it) = Some f"
      and "words_at f (it_offset it) (ws @ [eom])"
      and "Mass_words (it_scan it) (it_offset it) (Mass_new (it_offset it)) ws = Inr (False, m)"
      and "word_tag eom = 8"
  shows "ScanIterator_next it =
           Inr (m\<lparr>duration := Some (word_payload eom),
                   Mass_size := Some (4 * length ws + 4)\<rparr>,
                it\<lparr>it_offset := it_offset it + (4 * length ws + 4)\<rparr>)"
proof -
  have "Mass_loop f (it_scan it) (it_offset it) (Mass_new (it_offset it)) =
          Inr (m\<lparr>duration := Some (word_payload eom), Mass_size := Some (4 * length ws + 4)\<rparr>)"
    using Mass_loop_at_EOM [OF assms(2) assms(3) assms(4)] by (simp add: Mass_new_def)
  then show ?thesis
    using assms(1) by (simp add: ScanIterator_next_def GetMass_def Mass_init_def)
qed

text \<open>
  C2. Let the iterator stand at the start of a mass whose words \<open>ws\<close> the decoder gets
  through without raising, \<open>m\<close> being the mass after them, and let the next word have
  tag \<open>0x8\<close>. Then \<open>__next__\<close> returns the mass \<open>m\<close> with \<open>duration\<close> set to the payload of
  that word and \<open>size\<close> set to the number of bytes of all the words read, the \<open>EOM\<close> word
  included, and it moves the iterator forward by exactly that size: the next mass is
  decoded at the byte after the \<open>EOM\<close> word.
\<close>

theorem eom_completes_mass:
  assumes "Scan_fd (it_scan it) = Some f"
      and "words_at f (it_offset it) (ws @ [eom])"
      and "Mass_words (it_scan it) (it_offset it) (Mass_new (it_offset it)) ws = Inr (False, m)"
      and "word_tag eom = 8"
  shows "ScanIterator_next it =
           Inr (m\<lparr>duration := Some (word_payload eom),
                   Mass_size := Some (4 * length ws + 4)\<rparr>,
                it\<lparr>it_offset := it_offset it + (4 * length ws + 4)\<rparr>)"
  using assms by (rule ScanIterator_next_EOM)

theorem eom_completes_mass_witness:
  "Scan_fd (example_scan example_record 0) = Some example_record
   \<and> words_at example_record 0 ([0x20040000, 0x1000000A] @ [0x80000064])
   \<and> word_tag 0x80000064 = 8
   \<and> word_payload 0x80000064 = 100
   \<and> ScanIterator_next \<lparr>it_scan = example_scan example_record 0, it_offset = 0\<rparr> =
       Inr (\<lparr>Mass_offset = 0, magnetMass = Some 1, acceleratingVoltage = None,
             channelTime = None, duration = Some 100,
             measurements = [''analog'' \<mapsto> [10]], Mass_size = Some 12\<rparr>,
            \<lparr>it_scan = example_scan example_record 0, it_offset = 12\<rparr>)"
  using eom_completes_mass [of "\<lparr>it_scan = example_scan example_record 0, it_offset = 0\<rparr>"
      example_record "[0x20040000, 0x1000000A]" "0x80000064"
      "(Mass_new 0)\<lparr>magnetMass := Some 1, measurements := [''analog'' \<mapsto> [10]]\<rparr>"]
  by (simp add: example_scan_def example_record_def word_eval Mass_eval)

section \<open>Attributes set once\<close>

lemma Mass_words_TIME_seen:
  assumes "Mass_words scan pos m ws = Inr (False, m')"
      and "\<forall>w \<in> set ws. w < 2 ^ 32"
      and "channelTime m \<noteq> None \<or> (\<exists>x \<in> set ws. word_tag x = 3)"
  shows "channelTime m' \<noteq> None"
  using assms
proof (induction ws arbitrary: pos m)
  case Nil
  then show ?case by simp
next
  case (Cons w ws)
  from Cons.prems(1) obtain m1 where
    w: "Mass_word scan (pos + 4) m w = Inr (False, m1)" and
    rest: "Mass_words scan (pos + 4) m1 ws = Inr (False, m')"
    by (auto split: sum.splits if_splits)
  have b: "w < 2 ^ 32" and bs: "\<forall>w \<in> set ws. w < 2 ^ 32" using Cons.prems(2) by simp_all
  have "channelTime m1 \<noteq> None \<or> (\<exists>x \<in> set ws. word_tag x = 3)"
  proof (cases "word_tag w = 3")
    case True
    with w b show ?thesis by (auto simp: Mass_word_TIME split: if_splits)
  next
    case False
    with Cons.prems(3) Mass_word_continue [OF w] show ?thesis by auto
  qed
  with Cons.IH [OF rest bs] show ?case by simp
qed

text \<open>
  C4. Let the decoder, started in the state \<open>m\<close>, get through the words \<open>ws\<close> and then
  read the word \<open>w\<close>. If \<open>w\<close> has tag \<open>0x3\<close> and \<open>channelTime\<close> was set before (in \<open>m\<close>, or
  by a word of \<open>ws\<close> with tag \<open>0x3\<close>), decoding fails with the exception of \<open>_SetAttr\<close>,
  \<open>channelTime is already set\<close>; if \<open>w\<close> has tag \<open>0x8\<close> and \<open>duration\<close> is already set,
  it fails with \<open>duration is already set\<close>. This exception is what the specification
  calls \<open>MalformedAttribute\<close>.
\<close>

theorem set_once_enforced:
  assumes "words_at f pos (ws @ [w])"
      and "Mass_words scan pos m ws = Inr (False, m')"
  shows "(word_tag w = 3 \<and> (channelTime m \<noteq> None \<or> (\<exists>x \<in> set ws. word_tag x = 3))
            \<longrightarrow> Mass_loop f scan pos m = Inl (Exception ''channelTime is already set''))
       \<and> (word_tag w = 8 \<and> duration m \<noteq> None
            \<longrightarrow> Mass_loop f scan pos m = Inl (Exception ''duration is already set''))"
proof -
  from assms(1) have ws: "words_at f pos ws"
    and r: "read_word f (pos + 4 * length ws) = Inr [w]"
    by (simp_all add: words_at_append)
  have b: "w < 2 ^ 32" using r by (rule read_word_bound)
  have bs: "\<forall>x \<in> set ws. x < 2 ^ 32" using ws words_at_bound by blast
  have go: "Mass_loop f scan pos m = Mass_loop f scan (pos + 4 * length ws) m'"
    using Mass_loop_words [OF ws, of scan m] assms(2) by simp
  have "Mass_loop f scan pos m = Inl (Exception ''channelTime is already set'')"
    if "word_tag w = 3" and "channelTime m \<noteq> None \<or> (\<exists>x \<in> set ws. word_tag x = 3)"
  proof -
    have "channelTime m' \<noteq> None"
      using Mass_words_TIME_seen [OF assms(2) bs that(2)] .
    then show ?thesis
      using go Mass_loop_step [OF r, of scan m'] Mass_word_TIME [OF b that(1), of scan _ m']
      by simp
  qed
  moreover have "Mass_loop f scan pos m = Inl (Exception ''duration is already set'')"
    if "word_tag w = 8" and "duration m \<noteq> None"
    using Mass_loop_at_EOM [OF assms(1) assms(2) that(1)] that(2) by simp
  ultimately show ?thesis by blast
qed

theorem set_once_enforced_witness:
  "words_at example_times 0 ([0x30000005, 0x1000000A] @ [0x30000007])
   \<and> word_tag 0x30000007 = 3
   \<and> Mass_loop example_times (example_scan example_times 0) 0 (Mass_new 0) =
       Inl (Exception ''channelTime is already set'')
   \<and> words_at example_record 8 ([] @ [0x80000064])
   \<and> word_tag 0x80000064 = 8
   \<and> Mass_loop example_record (example_scan example_record 0) 8
        ((Mass_new 0)\<lparr>duration := Some 1\<rparr>) =
       Inl (Exception ''duration is already set'')"
  using set_once_enforced [of example_times 0 "[0x30000005, 0x1000000A]" "0x30000007"
      "example_scan example_times 0" "Mass_new 0"
      "(Mass_new 0)\<lparr>channelTime := Some 5, measurements := [''analog'' \<mapsto> [10]]\<rparr>"]
    set_once_enforced [of example_record 8 "[]" "0x80000064"
      "example_scan example_record 0" "(Mass_new 0)\<lparr>duration := Some 1\<rparr>"
      "(Mass_new 0)\<lparr>duration := Some 1\<rparr>"]
  by (simp add: example_scan_def example_times_def example_record_def word_eval Mass_eval)

section \<open>The accelerating voltage\<close>



text \<open>
  C9. Let the iterator stand at the start of a mass whose first words \<open>ws\<close> the decoder
  gets through, and let the next word have tag \<open>0x4\<close> and payload 0. Then \<open>__next__\<close>
  raises \<open>ZeroDivisionError\<close>, a \<open>for\<close> loop over the masses is left by it before any
  mass, and \<open>ZeroDivisionError\<close> is none of the errors the specification names.
\<close>

theorem volt_zero_division:
  assumes "Scan_fd (it_scan it) = Some f"
      and "words_at f (it_offset it) (ws @ [v])"
      and "Mass_words (it_scan it) (it_offset it) (Mass_new (it_offset it)) ws = Inr (False, m)"
      and "word_tag v = 4" and "word_payload v = 0"
  shows "ScanIterator_next it = Inl ZeroDivisionError
         \<and> masses_from it = ([], Some ZeroDivisionError)
         \<and> \<not> spec_error ZeroDivisionError"
proof -
  from assms(2) have ws: "words_at f (it_offset it) ws"
    and r: "read_word f (it_offset it + 4 * length ws) = Inr [v]"
    by (simp_all add: words_at_append)
  have b: "v < 2 ^ 32" using r by (rule read_word_bound)
  have "Mass_loop f (it_scan it) (it_offset it) (Mass_new (it_offset it)) =
          Mass_loop f (it_scan it) (it_offset it + 4 * length ws) m"
    using Mass_loop_words [OF ws, of "it_scan it" "Mass_new (it_offset it)"] assms(3) by simp
  also have "\<dots> = Inl ZeroDivisionError"
    using Mass_loop_step [OF r, of "it_scan it" m]
      Mass_word_VOLT [OF b assms(4), of "it_scan it" _ m] assms(5)
    by simp
  finally have "ScanIterator_next it = Inl ZeroDivisionError"
    using assms(1) by (simp add: ScanIterator_next_def GetMass_def Mass_init_def)
  then show ?thesis by (simp add: masses_from.simps)
qed

theorem volt_zero_division_witness:
  "Scan_fd (example_scan example_volt0 7) = Some example_volt0
   \<and> words_at example_volt0 0 ([0x30000005] @ [0x40000000])
   \<and> word_tag 0x40000000 = 4 \<and> word_payload 0x40000000 = 0
   \<and> ScanIterator_next \<lparr>it_scan = example_scan example_volt0 7, it_offset = 0\<rparr> =
       Inl ZeroDivisionError
   \<and> masses_from \<lparr>it_scan = example_scan example_volt0 7, it_offset = 0\<rparr> =
       ([], Some ZeroDivisionError)"
  using volt_zero_division [of "\<lparr>it_scan = example_scan example_volt0 7, it_offset = 0\<rparr>"
      example_volt0 "[0x30000005]" "0x40000000" "(Mass_new 0)\<lparr>channelTime := Some 5\<rparr>"]
  by (simp add: example_scan_def example_volt0_def word_eval Mass_eval)

section \<open>The header and the index of a dat file\<close>

lemma le32_at_Cons4: "le32_at (b0 # b1 # b2 # b3 # bs) (4 + k) = le32_at bs k"
  by (simp add: le32_at_def add.commute)

lemma unpack_words_le32:
  "length bs = 4 * n \<Longrightarrow> unpack_words bs = map (\<lambda>i. le32_at bs (4 * i)) [0..<n]"
proof (induction n arbitrary: bs)
  case 0
  then show ?case by simp
next
  case (Suc n)
  then obtain b0 b1 b2 b3 rest where bs: "bs = b0 # b1 # b2 # b3 # rest"
    and len: "length rest = 4 * n"
    by (cases bs; simp; cases "tl bs"; simp; cases "tl (tl bs)"; simp;
        cases "tl (tl (tl bs))"; simp)
  have "map (\<lambda>i. le32_at bs (4 * i)) [0..<Suc n] =
          le32_at bs 0 # map (\<lambda>i. le32_at bs (4 * Suc i)) [0..<n]"
    by (simp add: upt_rec [of 0] map_Suc_upt [symmetric] del: upt_Suc)
  also have "map (\<lambda>i. le32_at bs (4 * Suc i)) [0..<n] = map (\<lambda>i. le32_at rest (4 * i)) [0..<n]"
    using le32_at_Cons4 by (simp add: bs)
  finally show ?case using Suc.IH [OF len] by (simp add: bs le32_at_def)
qed

lemma le32_at_read:
  "p + 4 \<le> n \<Longrightarrow> pos + n \<le> length f \<Longrightarrow> le32_at (fd_read f pos n) p = le32_at f (pos + p)"
  by (simp add: le32_at_def fd_read_def add.assoc)

lemma unpack_I_read:
  assumes "pos + 4 * n \<le> length f"
  shows "unpack_I n (fd_read f pos (4 * n)) = Inr (map (\<lambda>i. le32_at f (pos + 4 * i)) [0..<n])"
proof -
  have len: "length (fd_read f pos (4 * n)) = 4 * n"
    using assms by (simp add: fd_read_def)
  have "map (\<lambda>i. le32_at (fd_read f pos (4 * n)) (4 * i)) [0..<n] =
        map (\<lambda>i. le32_at f (pos + 4 * i)) [0..<n]"
    using assms by (intro map_cong refl le32_at_read) auto
  then show ?thesis
    using unpack_words_le32 [OF len] len by (simp add: unpack_I_def)
qed

lemma header_fields:
  assumes "16 + 340 \<le> length f"
  shows "unpack_I 85 (fd_read f 16 340) = Inr (map (\<lambda>i. le32_at f (16 + 4 * i)) [0..<85])"
  using unpack_I_read [of 16 85 f] assms by simp

lemma index_table:
  assumes "n = 0 \<or> off + 4 + 4 * n \<le> length f"
  shows "unpack_I n (fd_read f (off + 4) (n * 4)) =
           Inr (map (\<lambda>i. le32_at f (off + 4 + 4 * i)) [0..<n])"
proof (cases "n = 0")
  case True
  then show ?thesis by (simp add: unpack_I_def fd_read_def)
next
  case False
  with assms have "off + 4 + 4 * n \<le> length f" by simp
  from unpack_I_read [OF this] show ?thesis by (simp add: mult.commute)
qed

lemma DatFile_init_ok:
  assumes "fs p = Some f"
      and "16 + 340 \<le> length f"
      and "le32_at f 172 = 0 \<or> le32_at f 148 + 4 + 4 * le32_at f 172 \<le> length f"
  shows "DatFile_init fs p =
     Inr \<lparr>path = p, DatFile_fd = None, timestamp = le32_at f 176, indexLen = le32_at f 172,
          indexOffset = le32_at f 148,
          DatFile_vals = map (\<lambda>i. le32_at f (16 + 4 * i)) [0..<85],
          offsets = map (\<lambda>i. le32_at f (le32_at f 148 + 4 + 4 * i)) [0..<le32_at f 172]\<rparr>"
  using assms(1) header_fields [OF assms(2)] index_table [OF assms(3)]
  by (simp add: DatFile_init_def Let_def HDR_TIMESTAMP_def HDR_INDEX_LEN_def
      HDR_INDEX_OFFSET_def)

text \<open>
  C7. For a file that holds the 340 bytes of the header from byte \<open>0x10\<close> and, unless the
  index is empty, the \<open>N\<close> entries of the index from byte \<open>O + 4\<close>, constructing the
  \<open>DatFile\<close> succeeds; its fields are the 85 little-endian unsigned 32-bit integers from
  byte \<open>0x10\<close>, the timestamp is field 40, \<open>N\<close> is field 39 and \<open>O\<close> is field 33; the offsets
  are the \<open>N\<close> little-endian unsigned 32-bit integers from byte \<open>O + 4\<close>, in order, and
  \<open>NumScans\<close> returns \<open>N\<close>.
\<close>

theorem datfile_header_index:
  assumes "fs p = Some f"
      and "0x10 + 85 * 4 \<le> length f"
      and "le32_at f (0x10 + 4 * 39) = 0
           \<or> le32_at f (0x10 + 4 * 33) + 4 + 4 * le32_at f (0x10 + 4 * 39) \<le> length f"
  shows "\<exists>dat. DatFile_init fs p = Inr dat
           \<and> timestamp dat = le32_at f (0x10 + 4 * 40)
           \<and> indexLen dat = le32_at f (0x10 + 4 * 39)
           \<and> indexOffset dat = le32_at f (0x10 + 4 * 33)
           \<and> DatFile_vals dat = map (\<lambda>i. le32_at f (0x10 + 4 * i)) [0..<85]
           \<and> offsets dat =
               map (\<lambda>i. le32_at f (indexOffset dat + 4 + 4 * i)) [0..<indexLen dat]
           \<and> NumScans dat = indexLen dat"
  using DatFile_init_ok [of fs p f] assms by (simp add: NumScans_def)

subsection \<open>The example file\<close>

lemma example_length: "length example_file = 564"
  by (simp add: example_file_def)

lemma example_fields:
  "le32_at example_file 148 = 356" "le32_at example_file 172 = 1"
  "le32_at example_file 176 = 42" "le32_at example_file 360 = 364"
  "le32_at example_file 400 = 7"
  by (simp_all add: example_file_def le32_at_def nth_append)

lemma example_DatFile_init: "DatFile_init example_fs ''run.dat'' = Inr example_dat"
  using DatFile_init_ok [of example_fs "''run.dat''" example_file]
  by (simp add: example_fs_def example_length example_fields example_dat_def)

lemma example_Open: "Open example_fs example_dat = Inr example_open"
  by (simp add: Open_def example_fs_def example_dat_def example_open_def)

lemma example_open_facts:
  "DatFile_fd example_open = Some example_file" "NumScans example_open = 1"
  "offsets example_open = [364]"
  by (simp_all add: example_open_def example_dat_def NumScans_def)

theorem datfile_header_index_witness:
  "example_fs ''run.dat'' = Some example_file
   \<and> 0x10 + 85 * 4 \<le> length example_file
   \<and> le32_at example_file (0x10 + 4 * 33) + 4 + 4 * le32_at example_file (0x10 + 4 * 39)
       \<le> length example_file
   \<and> (case DatFile_init example_fs ''run.dat'' of
         Inl e \<Rightarrow> False
       | Inr dat \<Rightarrow> timestamp dat = 42 \<and> indexLen dat = 1 \<and> indexOffset dat = 356
                   \<and> offsets dat = [364] \<and> NumScans dat = 1)"
  using datfile_header_index [of example_fs "''run.dat''" example_file]
  by (auto simp: example_fs_def example_length example_fields)

section \<open>Random access to the scans\<close>

lemma Scan_init_ok:
  assumes "DatFile_fd dat = Some f" and "off + 188 \<le> length f"
  shows "Scan_init dat off =
     Inr \<lparr>headerSize = 188, number = le32_at f (off + 4 * 9), delta = le32_at f (off + 4 * 7),
          acf = le32_at f (off + 4 * 12), time = le32_at f (off + 4 * 19),
          fcf = le32_at f (off + 4 * 35), edac = le32_at f (off + 4 * 31),
          Scan_vals = map (\<lambda>i. le32_at f (off + 4 * i)) [0..<47],
          Scan_fd = Some f, Scan_offset = off + 188\<rparr>"
proof -
  have "unpack_I 47 (fd_read f off 188) = Inr (map (\<lambda>i. le32_at f (off + 4 * i)) [0..<47])"
    using unpack_I_read [of off 47 f] assms(2) by simp
  then show ?thesis using assms(1) by (simp add: Scan_init_def Let_def)
qed

lemma Scan_init_short:
  assumes "DatFile_fd dat = Some f" and "\<not> off + 188 \<le> length f"
  shows "Scan_init dat off = Inl StructError"
  using assms by (auto simp: Scan_init_def Let_def unpack_I_def fd_read_def)

lemma Scan_init_no_IndexError:
  assumes "DatFile_fd dat = Some f"
  shows "Scan_init dat off \<noteq> Inl (IndexError msg)"
  using Scan_init_ok [OF assms, of off] Scan_init_short [OF assms, of off]
  by (cases "off + 188 \<le> length f") simp_all

text \<open>
  C6, as the claim states it, fails on a dat file that was constructed and not opened:
  \<open>GetScan\<close> checks the handle before the index, so \<open>GetScan(1)\<close> on the example file, which
  has one scan, raises \<open>NotOpen\<close> and no \<open>IndexError\<close>.
\<close>

theorem getscan_closed_file:
  "DatFile_init example_fs ''run.dat'' = Inr example_dat
   \<and> NumScans example_dat = 1
   \<and> GetScan example_dat 1 = Inl NotOpen"
  using example_DatFile_init by (simp add: example_dat_def NumScans_def GetScan_def)

text \<open>
  C6, amended. For every dat file whose handle is open and every index \<open>i \<ge> 0\<close>,
  \<open>GetScan(i)\<close> raises \<open>IndexError\<close> if and only if \<open>i \<ge> NumScans\<close>; for \<open>i < NumScans\<close> it
  is the decoding of a scan at \<open>offsets[i]\<close>, and when the 188 bytes of the header lie
  within the file it returns a scan whose \<open>number\<close> is the 32-bit field at position 9 of
  that header and whose masses start right after the header.
\<close>

theorem getscan_range:
  assumes "DatFile_fd dat = Some f" and "0 \<le> i"
  shows "((\<exists>msg. GetScan dat i = Inl (IndexError msg)) \<longleftrightarrow> i \<ge> int (NumScans dat))
       \<and> (i < int (NumScans dat) \<longrightarrow>
            GetScan dat i = Scan_init dat (offsets dat ! nat i)
            \<and> (offsets dat ! nat i + 188 \<le> length f \<longrightarrow>
                 (\<exists>scan. GetScan dat i = Inr scan
                    \<and> number scan = le32_at f (offsets dat ! nat i + 4 * 9)
                    \<and> Scan_offset scan = offsets dat ! nat i + 188)))"
proof (cases "i \<ge> int (NumScans dat)")
  case True
  then show ?thesis using assms(1) by (simp add: GetScan_def NumScans_def)
next
  case False
  then have eq: "GetScan dat i = Scan_init dat (offsets dat ! nat i)"
    using assms by (simp add: GetScan_def NumScans_def py_index_def)
  have "\<not> (\<exists>msg. GetScan dat i = Inl (IndexError msg))"
    using Scan_init_no_IndexError [OF assms(1)] eq by simp
  moreover have "\<exists>scan. GetScan dat i = Inr scan
                    \<and> number scan = le32_at f (offsets dat ! nat i + 4 * 9)
                    \<and> Scan_offset scan = offsets dat ! nat i + 188"
    if "offsets dat ! nat i + 188 \<le> length f"
    using Scan_init_ok [OF assms(1) that] eq by simp
  ultimately show ?thesis using False eq by simp
qed

theorem getscan_range_witness:
  "Open example_fs example_dat = Inr example_open
   \<and> DatFile_fd example_open = Some example_file
   \<and> NumScans example_open = 1
   \<and> GetScan example_open 1 = Inl (IndexError ''Scan index out of range: 1 >= 1'')
   \<and> (case GetScan example_open 0 of
         Inl e \<Rightarrow> False
       | Inr scan \<Rightarrow> number scan = 7 \<and> Scan_offset scan = 552)"
proof -
  from getscan_range [OF example_open_facts(1), of 0]
  obtain scan where "GetScan example_open 0 = Inr scan"
    and "number scan = 7" and "Scan_offset scan = 552"
    by (auto simp: example_open_facts example_length example_fields) metis
  moreover have "GetScan example_open 1 = Inl (IndexError ''Scan index out of range: 1 >= 1'')"
    by (simp add: GetScan_def example_open_facts str_nat.simps)
  ultimately show ?thesis
    using example_Open by (simp add: example_open_facts)
qed

text \<open>
  C10, as the claim states it, fails on a dat file that was constructed and not opened:
  \<open>GetScan(-1)\<close> on the example file raises \<open>NotOpen\<close>.
\<close>

theorem getscan_negative_closed_file:
  "DatFile_init example_fs ''run.dat'' = Inr example_dat
   \<and> NumScans example_dat = 1
   \<and> GetScan example_dat (- 1) = Inl NotOpen"
  using example_DatFile_init by (simp add: example_dat_def NumScans_def GetScan_def)

text \<open>
  C10, amended. For every dat file whose handle is open, with \<open>NumScans = N\<close>, and every
  index \<open>i\<close> with \<open>-N \<le> i \<le> -1\<close>, \<open>GetScan(i)\<close> raises no \<open>IndexError\<close>: only the upper bound
  is checked, the negative index counts from the end of the tuple, and \<open>GetScan(i)\<close> is
  the decoding of a scan at \<open>offsets[N + i]\<close>, which returns a scan when the 188 bytes of
  the header lie within the file.
\<close>

theorem getscan_negative_index:
  assumes "DatFile_fd dat = Some f"
      and "- int (NumScans dat) \<le> i" and "i \<le> - 1"
  shows "GetScan dat i = Scan_init dat (offsets dat ! nat (int (NumScans dat) + i))
       \<and> (\<forall>msg. GetScan dat i \<noteq> Inl (IndexError msg))
       \<and> (offsets dat ! nat (int (NumScans dat) + i) + 188 \<le> length f \<longrightarrow>
            (\<exists>scan. GetScan dat i = Inr scan
               \<and> number scan = le32_at f (offsets dat ! nat (int (NumScans dat) + i) + 4 * 9)))"
proof -
  have eq: "GetScan dat i = Scan_init dat (offsets dat ! nat (int (NumScans dat) + i))"
    using assms by (simp add: GetScan_def NumScans_def py_index_def)
  moreover have "\<forall>msg. GetScan dat i \<noteq> Inl (IndexError msg)"
    using Scan_init_no_IndexError [OF assms(1)] eq by simp
  moreover have "\<exists>scan. GetScan dat i = Inr scan
               \<and> number scan = le32_at f (offsets dat ! nat (int (NumScans dat) + i) + 4 * 9)"
    if "offsets dat ! nat (int (NumScans dat) + i) + 188 \<le> length f"
    using Scan_init_ok [OF assms(1) that] eq by simp
  ultimately show ?thesis by simp
qed

theorem getscan_negative_index_witness:
  "DatFile_fd example_open = Some example_file
   \<and> - int (NumScans example_open) \<le> - 1
   \<and> (case GetScan example_open (- 1) of
         Inl e \<Rightarrow> False
       | Inr scan \<Rightarrow> number scan = 7)"
proof -
  from getscan_negative_index [OF example_open_facts(1), of "- 1"]
  obtain scan where "GetScan example_open (- 1) = Inr scan" and "number scan = 7"
    by (auto simp: example_open_facts example_length example_fields) metis
  then show ?thesis by (simp add: example_open_facts)
qed

section \<open>Iterating over the masses of a scan\<close>







section \<open>End to end\<close>






end
